theory Spec2Isabelle
  imports Complex_Main
begin

section \<open>The training graph of Selfie2BitmojiModel (models/s2b\_model.py)\<close>

text \<open>
  The Python methods of \<open>Selfie2BitmojiModel\<close> do not compute numbers: they build a
  TensorFlow graph. The embedding follows that. A \<open>tensor\<close> is a node of the graph (the
  operation and its inputs), a \<open>layer\<close> is one call of a \<open>tf.layers\<close> function with the
  keyword arguments the source passes, and every Python method is a function that returns
  the node it builds, or the exception its Python code raises (an index out of range, an
  attribute that does not exist). Of the shape checks TensorFlow makes while a graph is
  built, only the one on the shape of an existing variable is modelled, in
  \<open>generator_call\<close>. The second part of the file gives the values that selected
  operations compute when the graph is run, on real numbers.
\<close>

subsection \<open>Python values and exceptions\<close>

datatype error =
    AttributeError string
  | IndexError
  | ValueError
  | InvalidArgumentError

text \<open>\<open>xs[i]\<close> for a non-negative index: out of range raises IndexError.\<close>

definition getitem :: "'a list \<Rightarrow> nat \<Rightarrow> error + 'a" where
  "getitem xs i = (if i < length xs then Inr (xs ! i) else Inl IndexError)"

text \<open>\<open>str(i)\<close> for a non-negative integer.\<close>

definition digit :: "nat \<Rightarrow> char" where
  "digit d = ''0123456789'' ! d"

function str :: "nat \<Rightarrow> string" where
  "str n = (if n < 10 then [digit n] else str (n div 10) @ [digit (n mod 10)])"
  by pat_completeness auto
termination
  by (relation "measure id") auto

declare str.simps [simp del]

text \<open>\<open>for i in xrange(n): x = body(i, x)\<close>, stopping at the first exception.\<close>

fun for_range :: "(nat \<Rightarrow> 'a \<Rightarrow> error + 'a) \<Rightarrow> nat list \<Rightarrow> 'a \<Rightarrow> error + 'a" where
  "for_range body [] x = Inr x"
| "for_range body (i # js) x =
     (case body i x of Inl e \<Rightarrow> Inl e | Inr y \<Rightarrow> for_range body js y)"

subsection \<open>Configuration: model\_architectures, bitmoji\_api and the cli arguments\<close>

text \<open>
  The modules \<open>model_architectures\<close> (imported as \<open>archs\<close>) and \<open>utils.bitmoji_api\<close> are
  not among the sources; their constants are parameters. An architecture is the
  dictionary with the four keys the loops read.
\<close>

record arch =
  conv_filters :: "nat list"
  filter_widths :: "nat list"
  strides :: "nat list"
  padding :: "string list"

record archs =
  IMG_DIMS :: "nat list"
  FACE_ENCODING_SIZE :: nat
  GENERATOR_INPUT_SIZE :: nat
  generator_model :: arch
  avatar_synth_model :: arch
  param_encoder_model :: arch

record bitmoji_api =
  BITMOJI_PARAM_SPLIT :: "nat list"
  BITMOJI_PARAM_SIZE :: nat

record args =
  batch_size :: nat
  keep_prob :: real
  lr_g :: real

subsection \<open>Graph nodes\<close>

datatype activation = Relu | Tanh | LeakyRelu | Sigmoid

datatype layer_fn =
    Dense
  | Conv2d
  | Conv2dTranspose
  | BatchNormalization
  | VaeConv2d
  | VaeFullyConnect
  | VaeBatchNormal

text \<open>
  One call of a layer function: the enclosing variable scope, the \<open>name\<close> argument, and
  the arguments that fix the layer's geometry, activation and trainability. TensorFlow
  names the weights of a layer by scope and name.
\<close>

record layer =
  l_fn :: layer_fn
  l_scope :: string
  l_name :: string
  l_units :: nat
  l_kernel :: nat
  l_strides :: nat
  l_padding :: string
  l_activation :: "activation option"
  l_trainable :: bool
  l_reuse :: "bool option"

datatype tensor =
    Placeholder string "nat option list"
  | Const int
  | Zeros tensor nat
  | RandomNormal nat "nat list" int int
  | Apply layer tensor
  | Act activation tensor
  | Dropout real tensor
  | Reshape "int list" tensor
  | Flatten tensor
  | Split "nat list" nat nat tensor
  | Softmax tensor
  | Concat "tensor list" nat
  | SliceFrom nat nat tensor
  | Add tensor tensor
  | Sub tensor tensor
  | Mul tensor tensor
  | Square tensor
  | Sqrt tensor
  | Exp tensor
  | Log tensor
  | ReduceMean tensor

text \<open>
  \<open>Zeros t k\<close> is \<open>tf.zeros\<close> of the static shape of \<open>t\<close> with axis \<open>k\<close> set to 1;
  \<open>RandomNormal n shape mean stddev\<close> is the \<open>n\<close>-th random operation created in the graph;
  \<open>Split sizes axis k t\<close> is output \<open>k\<close> of \<open>tf.split(t, sizes, axis)\<close>;
  \<open>SliceFrom axis k t\<close> is \<open>t\<close> with the first \<open>k\<close> entries of \<open>axis\<close> dropped
  (\<open>t[:, :, 1:, :]\<close> is \<open>SliceFrom 2 1 t\<close>).
\<close>

fun layers_of :: "tensor \<Rightarrow> layer list" where
  "layers_of (Placeholder nm sh) = []"
| "layers_of (Const c) = []"
| "layers_of (Zeros t k) = []"
| "layers_of (RandomNormal n sh m s) = []"
| "layers_of (Apply l t) = layers_of t @ [l]"
| "layers_of (Act a t) = layers_of t"
| "layers_of (Dropout kp t) = layers_of t"
| "layers_of (Reshape sh t) = layers_of t"
| "layers_of (Flatten t) = layers_of t"
| "layers_of (Split sizes ax k t) = layers_of t"
| "layers_of (Softmax t) = layers_of t"
| "layers_of (Concat ts ax) = concat (map layers_of ts)"
| "layers_of (SliceFrom ax k t) = layers_of t"
| "layers_of (Add a b) = layers_of a @ layers_of b"
| "layers_of (Sub a b) = layers_of a @ layers_of b"
| "layers_of (Mul a b) = layers_of a @ layers_of b"
| "layers_of (Square t) = layers_of t"
| "layers_of (Sqrt t) = layers_of t"
| "layers_of (Exp t) = layers_of t"
| "layers_of (Log t) = layers_of t"
| "layers_of (ReduceMean t) = layers_of t"

text \<open>
  The static size of the last dimension of a node (the number of features or channels),
  where the graph fixes it: a layer with units or filters has that many, a batch
  normalization, an activation and a dropout keep the size of their input, an
  element-wise operation of two nodes has the larger of the two sizes.
\<close>

fun last_dim :: "tensor \<Rightarrow> nat option" where
  "last_dim (Placeholder nm sh) = (if sh = [] then None else last sh)"
| "last_dim (RandomNormal n sh m s) = (if sh = [] then None else Some (last sh))"
| "last_dim (Apply l t) =
     (if l_fn l = BatchNormalization \<or> l_fn l = VaeBatchNormal then last_dim t
      else Some (l_units l))"
| "last_dim (Act a t) = last_dim t"
| "last_dim (Dropout kp t) = last_dim t"
| "last_dim (Reshape sh t) =
     (if sh = [] \<or> last sh < 0 then None else Some (nat (last sh)))"
| "last_dim (Add a b) =
     (case (last_dim a, last_dim b) of (Some m, Some n) \<Rightarrow> Some (max m n) | _ \<Rightarrow> None)"
| "last_dim (Sub a b) =
     (case (last_dim a, last_dim b) of (Some m, Some n) \<Rightarrow> Some (max m n) | _ \<Rightarrow> None)"
| "last_dim (Mul a b) =
     (case (last_dim a, last_dim b) of (Some m, Some n) \<Rightarrow> Some (max m n) | _ \<Rightarrow> None)"
| "last_dim (Square t) = last_dim t"
| "last_dim (Sqrt t) = last_dim t"
| "last_dim (Exp t) = last_dim t"
| "last_dim (Log t) = last_dim t"
| "last_dim t = None"

text \<open>
  The graph's variable store: the names of the variables that exist, with their shapes.
  A layer keeps its weights under its scope and name; their shapes follow from the size
  \<open>w\<close> of the last dimension of the layer's input. The weights of the helpers of
  \<open>utils.vae_gan\<close> are not listed: their code is not among the sources.
\<close>

type_synonym store = "(string \<times> nat list) list"

definition variable_scope_of :: "layer \<Rightarrow> string" where
  "variable_scope_of l = l_scope l @ ''/'' @ l_name l"

definition layer_variables :: "layer \<Rightarrow> nat \<Rightarrow> store" where
  "layer_variables l w =
     (let nm = variable_scope_of l in
      case l_fn l of
        Dense \<Rightarrow> [(nm @ ''/kernel'', [w, l_units l]), (nm @ ''/bias'', [l_units l])]
      | Conv2d \<Rightarrow>
          [(nm @ ''/kernel'', [l_kernel l, l_kernel l, w, l_units l]),
           (nm @ ''/bias'', [l_units l])]
      | Conv2dTranspose \<Rightarrow>
          [(nm @ ''/kernel'', [l_kernel l, l_kernel l, l_units l, w]),
           (nm @ ''/bias'', [l_units l])]
      | BatchNormalization \<Rightarrow>
          [(nm @ ''/gamma'', [w]), (nm @ ''/beta'', [w]),
           (nm @ ''/moving_mean'', [w]), (nm @ ''/moving_variance'', [w])]
      | _ \<Rightarrow> [])"

text \<open>
  Every method opens its variable scope with \<open>reuse=tf.AUTO_REUSE\<close>, and TensorFlow reads
  a layer's own \<open>reuse=None\<close> and \<open>reuse=False\<close> alike as "inherit the mode of the
  enclosing scope". In that mode \<open>get_variable\<close> creates a variable that does not exist,
  returns the one that exists under the name when the shapes agree, and raises
  ValueError when they do not.
\<close>

definition get_variable :: "string \<times> nat list \<Rightarrow> store \<Rightarrow> error + store" where
  "get_variable v vars =
     (case map_of vars (fst v) of
        None \<Rightarrow> Inr (vars @ [v])
      | Some sh \<Rightarrow> if sh = snd v then Inr vars else Inl ValueError)"

fun get_variables :: "store \<Rightarrow> store \<Rightarrow> error + store" where
  "get_variables [] vars = Inr vars"
| "get_variables (v # vs) vars =
     (case get_variable v vars of Inl e \<Rightarrow> Inl e | Inr vars' \<Rightarrow> get_variables vs vars')"

text \<open>
  A layer call on a node: the weights are fetched first (the last dimension of the input
  must be known), then the layer's output node is built.
\<close>

definition apply_layer :: "layer \<Rightarrow> tensor \<Rightarrow> store \<Rightarrow> error + tensor \<times> store" where
  "apply_layer l t vars =
     (case last_dim t of
        None \<Rightarrow> Inl ValueError
      | Some w \<Rightarrow>
          (case get_variables (layer_variables l w) vars of
             Inl e \<Rightarrow> Inl e
           | Inr vars' \<Rightarrow> Inr (Apply l t, vars')))"

text \<open>The geometry of a convolution layer: filters, kernel width, stride, padding mode.\<close>

definition layer_geometry :: "layer \<Rightarrow> nat \<times> nat \<times> nat \<times> string" where
  "layer_geometry l = (l_units l, l_kernel l, l_strides l, l_padding l)"

definition stage_geometry :: "error + layer \<Rightarrow> error + nat \<times> nat \<times> nat \<times> string" where
  "stage_geometry r = (case r of Inl e \<Rightarrow> Inl e | Inr l \<Rightarrow> Inr (layer_geometry l))"

subsection \<open>The layer functions as the source calls them\<close>

text \<open>
  \<open>tf.layers.dense\<close>, \<open>conv2d\<close>, \<open>conv2d_transpose\<close> and \<open>batch_normalization\<close> with the
  arguments of the source; an argument the source leaves out has TensorFlow's default
  (\<open>trainable=True\<close>, \<open>reuse=None\<close>). Initializers play no part in the claims and are
  left out.
\<close>

definition dense :: "string \<Rightarrow> nat \<Rightarrow> activation option \<Rightarrow> string \<Rightarrow> bool option \<Rightarrow> layer" where
  "dense sc units activation nm reuse =
     \<lparr>l_fn = Dense, l_scope = sc, l_name = nm, l_units = units, l_kernel = 0, l_strides = 0,
      l_padding = [], l_activation = activation, l_trainable = True, l_reuse = reuse\<rparr>"

definition conv2d :: "string \<Rightarrow> nat \<Rightarrow> nat \<Rightarrow> nat \<Rightarrow> string \<Rightarrow> activation option \<Rightarrow> string \<Rightarrow> layer" where
  "conv2d sc filters kernel_size strd pad activation nm =
     \<lparr>l_fn = Conv2d, l_scope = sc, l_name = nm, l_units = filters, l_kernel = kernel_size,
      l_strides = strd, l_padding = pad, l_activation = activation, l_trainable = True,
      l_reuse = None\<rparr>"

definition conv2d_transpose ::
  "string \<Rightarrow> nat \<Rightarrow> nat \<Rightarrow> nat \<Rightarrow> string \<Rightarrow> activation option \<Rightarrow> string \<Rightarrow> bool \<Rightarrow> layer" where
  "conv2d_transpose sc filters kernel_size strd pad activation nm trainable =
     \<lparr>l_fn = Conv2dTranspose, l_scope = sc, l_name = nm, l_units = filters,
      l_kernel = kernel_size, l_strides = strd, l_padding = pad, l_activation = activation,
      l_trainable = trainable, l_reuse = None\<rparr>"

definition batch_normalization :: "string \<Rightarrow> string \<Rightarrow> layer" where
  "batch_normalization sc nm =
     \<lparr>l_fn = BatchNormalization, l_scope = sc, l_name = nm, l_units = 0, l_kernel = 0,
      l_strides = 0, l_padding = [], l_activation = None, l_trainable = True, l_reuse = None\<rparr>"

text \<open>
  Modelled from the spec: the helpers \<open>conv2d\<close>, \<open>batch_normal\<close> and \<open>fully_connect\<close> of
  \<open>utils.vae_gan\<close> are not among the sources. The spec calls them a downsampling
  convolution, a batch normalization and a fully-connected layer; each is a layer
  with the output size and the scope name the source passes.
\<close>

definition vae_conv2d :: "string \<Rightarrow> nat \<Rightarrow> string \<Rightarrow> layer" where
  "vae_conv2d sc output_dim nm =
     \<lparr>l_fn = VaeConv2d, l_scope = sc, l_name = nm, l_units = output_dim, l_kernel = 0,
      l_strides = 0, l_padding = [], l_activation = None, l_trainable = True, l_reuse = None\<rparr>"

definition vae_batch_normal :: "string \<Rightarrow> string \<Rightarrow> layer" where
  "vae_batch_normal sc nm =
     \<lparr>l_fn = VaeBatchNormal, l_scope = sc, l_name = nm, l_units = 0, l_kernel = 0,
      l_strides = 0, l_padding = [], l_activation = None, l_trainable = True, l_reuse = None\<rparr>"

definition vae_fully_connect :: "string \<Rightarrow> nat \<Rightarrow> string \<Rightarrow> layer" where
  "vae_fully_connect sc output_size nm =
     \<lparr>l_fn = VaeFullyConnect, l_scope = sc, l_name = nm, l_units = output_size, l_kernel = 0,
      l_strides = 0, l_padding = [], l_activation = None, l_trainable = True, l_reuse = None\<rparr>"

subsection \<open>The model object\<close>

text \<open>
  \<open>__init__\<close> stores the cli arguments; every other attribute of \<open>self\<close> is created by
  assignment. The attributes that hold tensors are a dictionary from attribute name to
  node, and reading a name that was never assigned raises AttributeError.
\<close>

record model =
  args :: args
  attrs :: "string \<rightharpoonup> tensor"

definition init :: "args \<Rightarrow> model" where
  "init a = \<lparr>args = a, attrs = Map.empty\<rparr>"

definition getattr :: "model \<Rightarrow> string \<Rightarrow> error + tensor" where
  "getattr self nm = (case attrs self nm of None \<Rightarrow> Inl (AttributeError nm) | Some t \<Rightarrow> Inr t)"

definition setattr :: "model \<Rightarrow> string \<Rightarrow> tensor \<Rightarrow> model" where
  "setattr self nm t = self\<lparr>attrs := (attrs self)(nm \<mapsto> t)\<rparr>"


subsection \<open>The stage parameters read from an architecture\<close>

text \<open>
  Every loop reads \<open>arch['conv_filters'][i + 1]\<close>, \<open>arch['filter_widths'][i]\<close>,
  \<open>arch['strides'][i]\<close> and \<open>arch['padding'][i]\<close>, in this order, as the arguments of the
  stage's first layer.
\<close>

definition stage_params :: "arch \<Rightarrow> nat \<Rightarrow> error + (nat \<times> nat \<times> nat \<times> string)" where
  "stage_params a i =
     (case getitem (conv_filters a) (i + 1) of Inl e \<Rightarrow> Inl e | Inr f \<Rightarrow>
     (case getitem (filter_widths a) i of Inl e \<Rightarrow> Inl e | Inr w \<Rightarrow>
     (case getitem (strides a) i of Inl e \<Rightarrow> Inl e | Inr s \<Rightarrow>
     (case getitem (padding a) i of Inl e \<Rightarrow> Inl e | Inr p \<Rightarrow> Inr (f, w, s, p)))))"

text \<open>\<open>i == len(arch['conv_filters']) - 2\<close> and \<open>i < len(arch['conv_filters']) - 2\<close>,
  on Python's integers.\<close>

definition is_last :: "arch \<Rightarrow> nat \<Rightarrow> bool" where
  "is_last a i = (int i = int (length (conv_filters a)) - 2)"

definition not_last :: "arch \<Rightarrow> nat \<Rightarrow> bool" where
  "not_last a i = (int i < int (length (conv_filters a)) - 2)"

definition stages :: "arch \<Rightarrow> nat list" where
  "stages a = [0 ..< length (conv_filters a) - 1]"

subsection \<open>\_face\_encoder\<close>

definition face_features :: "tensor \<Rightarrow> tensor" where
  "face_features imgs =
     (let sc = ''Face_Encoder/Encode'';
          conv1 = Act Relu (Apply (vae_batch_normal sc ''e_bn1'') (Apply (vae_conv2d sc 64 ''e_c1'') imgs));
          conv2 = Act Relu (Apply (vae_batch_normal sc ''e_bn2'') (Apply (vae_conv2d sc 128 ''e_c2'') conv1));
          conv3 = Act Relu (Apply (vae_batch_normal sc ''e_bn3'') (Apply (vae_conv2d sc 256 ''e_c3'') conv2));
          conv3 = Reshape [- 1, 256 * 8 * 8] conv3
      in Act Relu (Apply (vae_batch_normal sc ''e_bn4'') (Apply (vae_fully_connect sc 1024 ''e_f1'') conv3)))"

definition z_mean :: "archs \<Rightarrow> tensor \<Rightarrow> tensor" where
  "z_mean A imgs =
     Apply (vae_fully_connect ''Face_Encoder/Encode'' (FACE_ENCODING_SIZE A) ''e_f2'') (face_features imgs)"

definition z_sigma :: "archs \<Rightarrow> tensor \<Rightarrow> tensor" where
  "z_sigma A imgs =
     Apply (vae_fully_connect ''Face_Encoder/Encode'' (FACE_ENCODING_SIZE A) ''e_f3'') (face_features imgs)"

text \<open>
  The method takes the number of random operations the graph holds and returns it
  increased: \<open>tf.random_normal\<close> adds a new operation to the graph at every call. The
  operation has the default mean 0 and standard deviation 1, and the shape
  \<open>(self.args.batch_size, archs.FACE_ENCODING_SIZE)\<close>.
\<close>

definition noise :: "archs \<Rightarrow> args \<Rightarrow> nat \<Rightarrow> tensor" where
  "noise A a n = RandomNormal n [batch_size a, FACE_ENCODING_SIZE A] 0 1"

definition face_encoder :: "archs \<Rightarrow> args \<Rightarrow> nat \<Rightarrow> tensor \<Rightarrow> tensor \<times> nat" where
  "face_encoder A a n imgs =
     (Add (z_mean A imgs) (Mul (Sqrt (Exp (z_sigma A imgs))) (noise A a n)), Suc n)"

subsection \<open>\_generator\<close>

definition generator_fc :: "archs \<Rightarrow> layer" where
  "generator_fc A = dense ''Generator'' (GENERATOR_INPUT_SIZE A) (Some Relu) ''FC'' (Some False)"

definition generator_stage :: "arch \<Rightarrow> real \<Rightarrow> nat \<Rightarrow> tensor \<Rightarrow> error + tensor" where
  "generator_stage a kp i preds =
     (let activation = (if is_last a i then Tanh else Relu) in
      case stage_params a i of Inl e \<Rightarrow> Inl e | Inr (f, w, s, p) \<Rightarrow>
        let preds = Apply (conv2d_transpose ''Generator'' f w s p (Some activation)
                             (''Deconv_'' @ str i) True) preds;
            preds = Apply (conv2d_transpose ''Generator'' f 1 1 ''SAME'' (Some Relu)
                             (''Conv_'' @ str i) True) preds
        in Inr (if not_last a i
                then Dropout kp (Apply (batch_normalization ''Generator'' (''BN_'' @ str i)) preds)
                else preds))"

definition generator :: "archs \<Rightarrow> args \<Rightarrow> tensor \<Rightarrow> error + tensor" where
  "generator A a encodings =
     (let arch = generator_model A;
          preds = Apply (generator_fc A) encodings;
          preds = Reshape [- 1, 1, 1, int (GENERATOR_INPUT_SIZE A)] preds
      in for_range (generator_stage arch (keep_prob a)) (stages arch) preds)"

text \<open>
  The same method with the variable store of the graph it is called in. \<open>generator\<close>
  above gives the nodes of one call; \<open>generator_call\<close> also fetches the weights of every
  layer, in the order of the calls, and so tells what a call does after an earlier one.
\<close>

definition generator_stage_call ::
  "arch \<Rightarrow> real \<Rightarrow> nat \<Rightarrow> tensor \<times> store \<Rightarrow> error + tensor \<times> store" where
  "generator_stage_call a kp i st =
     (let activation = (if is_last a i then Tanh else Relu) in
      case stage_params a i of Inl e \<Rightarrow> Inl e | Inr (f, w, s, p) \<Rightarrow>
      (case apply_layer (conv2d_transpose ''Generator'' f w s p (Some activation)
                           (''Deconv_'' @ str i) True) (fst st) (snd st) of
         Inl e \<Rightarrow> Inl e
       | Inr (preds, vars) \<Rightarrow>
      (case apply_layer (conv2d_transpose ''Generator'' f 1 1 ''SAME'' (Some Relu)
                           (''Conv_'' @ str i) True) preds vars of
         Inl e \<Rightarrow> Inl e
       | Inr (preds, vars) \<Rightarrow>
           if not_last a i
           then (case apply_layer (batch_normalization ''Generator'' (''BN_'' @ str i)) preds vars of
                   Inl e \<Rightarrow> Inl e
                 | Inr (preds, vars) \<Rightarrow> Inr (Dropout kp preds, vars))
           else Inr (preds, vars))))"

definition generator_call :: "archs \<Rightarrow> args \<Rightarrow> store \<Rightarrow> tensor \<Rightarrow> error + tensor \<times> store" where
  "generator_call A a vars encodings =
     (let arch = generator_model A in
      case apply_layer (generator_fc A) encodings vars of
        Inl e \<Rightarrow> Inl e
      | Inr (preds, vars) \<Rightarrow>
          for_range (generator_stage_call arch (keep_prob a)) (stages arch)
            (Reshape [- 1, 1, 1, int (GENERATOR_INPUT_SIZE A)] preds, vars))"

subsection \<open>\_discriminator\<close>

definition discriminator_conv :: "arch \<Rightarrow> nat \<Rightarrow> error + layer" where
  "discriminator_conv a i =
     (let activation = (if is_last a i then Sigmoid else LeakyRelu) in
      case stage_params a i of Inl e \<Rightarrow> Inl e | Inr (f, w, s, p) \<Rightarrow>
        Inr (conv2d ''Discriminator'' f w s p (Some activation) (''Conv_'' @ str i)))"

definition discriminator_stage :: "arch \<Rightarrow> real \<Rightarrow> nat \<Rightarrow> tensor \<Rightarrow> error + tensor" where
  "discriminator_stage a kp i preds =
     (case discriminator_conv a i of Inl e \<Rightarrow> Inl e | Inr l \<Rightarrow>
        let preds = Apply l preds
        in Inr (if not_last a i
                then Dropout kp (Apply (batch_normalization ''Discriminator'' (''BN_'' @ str i)) preds)
                else preds))"

definition discriminator :: "archs \<Rightarrow> args \<Rightarrow> tensor \<Rightarrow> error + tensor" where
  "discriminator A a imgs =
     (let arch = avatar_synth_model A
      in for_range (discriminator_stage arch (keep_prob a)) (stages arch) imgs)"

subsection \<open>\_param\_encoder\<close>

definition param_encoder_stage :: "arch \<Rightarrow> real \<Rightarrow> nat \<Rightarrow> tensor \<Rightarrow> error + tensor" where
  "param_encoder_stage a kp i preds =
     (let activation = (if is_last a i then Sigmoid else LeakyRelu) in
      case stage_params a i of Inl e \<Rightarrow> Inl e | Inr (f, w, s, p) \<Rightarrow>
        let preds = Apply (conv2d ''Param_Encoder'' f w s p (Some activation) (''Conv_'' @ str i)) preds
        in Inr (if not_last a i
                then Dropout kp (Apply (batch_normalization ''Param_Encoder'' (''BN_'' @ str i)) preds)
                else preds))"

definition param_encoder :: "archs \<Rightarrow> bitmoji_api \<Rightarrow> args \<Rightarrow> tensor \<Rightarrow> error + tensor" where
  "param_encoder A B a gen_faces =
     (let arch = param_encoder_model A in
      case for_range (param_encoder_stage arch (keep_prob a)) (stages arch) gen_faces of
        Inl e \<Rightarrow> Inl e
      | Inr preds \<Rightarrow>
          let preds = Flatten preds;
              param_sets = map (\<lambda>k. Split (BITMOJI_PARAM_SPLIT B) 1 k preds)
                             [0 ..< length (BITMOJI_PARAM_SPLIT B)]
          in Inr (Concat (map Softmax param_sets) 1))"

subsection \<open>\_avatar\_synth\<close>

definition avatar_synth_deconv :: "arch \<Rightarrow> nat \<Rightarrow> error + layer" where
  "avatar_synth_deconv a i =
     (case stage_params a i of Inl e \<Rightarrow> Inl e | Inr (f, w, s, p) \<Rightarrow>
        Inr (conv2d_transpose ''Avatar_Synth'' f w s p (Some Relu) (''Deconv_'' @ str i) False))"

definition avatar_synth_conv :: "arch \<Rightarrow> nat \<Rightarrow> error + layer" where
  "avatar_synth_conv a i =
     (let activation = (if is_last a i then Tanh else Relu) in
      case getitem (conv_filters a) (i + 1) of Inl e \<Rightarrow> Inl e | Inr f \<Rightarrow>
        Inr (conv2d_transpose ''Avatar_Synth'' f 1 1 ''SAME'' (Some activation)
               (''Conv_'' @ str i) False))"

text \<open>
  One pass of the loop body. The deconvolution is assigned to the local \<open>preds\<close>; the
  refinement convolution reads and assigns the attribute \<open>self.preds\<close>; the batch
  normalization is applied to the local \<open>preds\<close> again.
\<close>

definition avatar_synth_stage :: "arch \<Rightarrow> nat \<Rightarrow> model \<times> tensor \<Rightarrow> error + model \<times> tensor" where
  "avatar_synth_stage a i st =
     (case st of (self, preds) \<Rightarrow>
     (case avatar_synth_deconv a i of Inl e \<Rightarrow> Inl e | Inr deconv \<Rightarrow>
       (let preds = Apply deconv preds in
       (case getattr self ''preds'' of Inl e \<Rightarrow> Inl e | Inr self_preds \<Rightarrow>
       (case avatar_synth_conv a i of Inl e \<Rightarrow> Inl e | Inr conv \<Rightarrow>
         (let self = setattr self ''preds'' (Apply conv self_preds)
          in Inr (self,
                  if not_last a i
                  then Apply (batch_normalization ''Avatar_Synth'' (''BN_'' @ str i)) preds
                  else preds)))))))"

definition avatar_synth :: "archs \<Rightarrow> bitmoji_api \<Rightarrow> model \<Rightarrow> tensor \<Rightarrow> error + model \<times> tensor" where
  "avatar_synth A B self params =
     (let arch = avatar_synth_model A;
          preds = Reshape [- 1, 1, 1, int (BITMOJI_PARAM_SIZE B)] params
      in for_range (avatar_synth_stage arch) (stages arch) (self, preds))"

subsection \<open>\_build\_graph\<close>

text \<open>
  The first half of \<open>_build_graph\<close> runs the sub-networks and keeps their outputs in local
  variables; the second half, under the comment \<open>Losses\<close>, assigns the six loss nodes to
  attributes of \<open>self\<close>. The summaries that follow only log these nodes.
\<close>

record intermediates =
  face_imgs :: tensor
  bitmoji_imgs :: tensor
  face_encodings :: tensor
  gen_faces :: tensor
  avatar_synth_faces :: tensor
  d_preds_real :: tensor
  d_preds_fake :: tensor
  gen_face_encodings :: tensor
  regen_bitmoji :: tensor
  gen_faces_left_shift :: tensor
  gen_faces_up_shift :: tensor

definition forward ::
  "archs \<Rightarrow> bitmoji_api \<Rightarrow> model \<Rightarrow> nat \<Rightarrow> tensor \<times> tensor \<Rightarrow> error + model \<times> nat \<times> intermediates" where
  "forward A B self n inputs =
     (case inputs of (face, bitmoji) \<Rightarrow>
     (case face_encoder A (args self) n face of (face_enc, n1) \<Rightarrow>
     (case generator A (args self) face_enc of Inl e \<Rightarrow> Inl e | Inr gen \<Rightarrow>
     (case param_encoder A B (args self) gen of Inl e \<Rightarrow> Inl e | Inr params \<Rightarrow>
     (case avatar_synth A B self params of Inl e \<Rightarrow> Inl e | Inr (self1, synth) \<Rightarrow>
     (case discriminator A (args self1) bitmoji of Inl e \<Rightarrow> Inl e | Inr d_real \<Rightarrow>
     (case discriminator A (args self1) gen of Inl e \<Rightarrow> Inl e | Inr d_fake \<Rightarrow>
     (case face_encoder A (args self1) n1 gen of (gen_enc, n2) \<Rightarrow>
     (case face_encoder A (args self1) n2 bitmoji of (bitmoji_enc, n3) \<Rightarrow>
     (case generator A (args self1) bitmoji_enc of Inl e \<Rightarrow> Inl e | Inr regen \<Rightarrow>
        Inr (self1, n3,
             \<lparr>face_imgs = face, bitmoji_imgs = bitmoji, face_encodings = face_enc,
              gen_faces = gen, avatar_synth_faces = synth, d_preds_real = d_real,
              d_preds_fake = d_fake, gen_face_encodings = gen_enc, regen_bitmoji = regen,
              gen_faces_left_shift = Concat [SliceFrom 2 1 gen, Zeros gen 2] 2,
              gen_faces_up_shift = Concat [SliceFrom 1 1 gen, Zeros gen 1] 1\<rparr>)))))))))))"

definition losses :: "intermediates \<Rightarrow> model \<Rightarrow> model" where
  "losses v self =
     (let self = setattr self ''l_c''
                   (ReduceMean (Square (Sub (gen_faces v) (avatar_synth_faces v))));
          self = setattr self ''l_const''
                   (ReduceMean (Square (Sub (face_encodings v) (gen_face_encodings v))));
          self = setattr self ''l_gan_d''
                   (Add (ReduceMean (Log (Sub (Const 1) (d_preds_real v))))
                        (ReduceMean (Log (d_preds_real v))));
          self = setattr self ''l_gan_g''
                   (Add (ReduceMean (Log (Sub (Const 1) (d_preds_fake v))))
                        (ReduceMean (Log (d_preds_fake v))));
          self = setattr self ''l_tid''
                   (ReduceMean (Square (Sub (bitmoji_imgs v) (regen_bitmoji v))));
          self = setattr self ''l_tv''
                   (ReduceMean (Sqrt (Add (Square (Sub (gen_faces_left_shift v) (gen_faces v)))
                                          (Square (Sub (gen_faces_up_shift v) (gen_faces v))))))
      in self)"

definition build_graph ::
  "archs \<Rightarrow> bitmoji_api \<Rightarrow> model \<Rightarrow> nat \<Rightarrow> tensor \<times> tensor \<Rightarrow> error + model \<times> nat" where
  "build_graph A B self n inputs =
     (case forward A B self n inputs of
        Inl e \<Rightarrow> Inl e
      | Inr (self1, n1, v) \<Rightarrow> Inr (losses v self1, n1))"



subsection \<open>Architectures the loops can index\<close>

text \<open>
  The constants of \<open>model_architectures\<close> are not among the sources. An architecture
  with \<open>n\<close> entries in \<open>conv_filters\<close> has \<open>n - 1\<close> stages, and the loops read entry \<open>i\<close> of
  the three other lists at stage \<open>i\<close>.
\<close>

definition wf_arch :: "arch \<Rightarrow> bool" where
  "wf_arch a =
     (length (conv_filters a) - 1 \<le> length (filter_widths a) \<and>
      length (conv_filters a) - 1 \<le> length (strides a) \<and>
      length (conv_filters a) - 1 \<le> length (padding a))"

subsection \<open>A small configuration\<close>

definition ex_arch :: arch where
  "ex_arch =
     \<lparr>conv_filters = [8, 4, 3], filter_widths = [4, 4], strides = [2, 2],
      padding = [''SAME'', ''SAME'']\<rparr>"

definition ex_archs :: archs where
  "ex_archs =
     \<lparr>IMG_DIMS = [4, 4, 3], FACE_ENCODING_SIZE = 2, GENERATOR_INPUT_SIZE = 8,
      generator_model = ex_arch, avatar_synth_model = ex_arch, param_encoder_model = ex_arch\<rparr>"

definition ex_api :: bitmoji_api where
  "ex_api = \<lparr>BITMOJI_PARAM_SPLIT = [2, 1], BITMOJI_PARAM_SIZE = 3\<rparr>"

definition ex_args :: args where
  "ex_args = \<lparr>batch_size = 2, keep_prob = 1 / 2, lr_g = 1\<rparr>"



section \<open>The values computed when the graph is run\<close>

text \<open>
  The claims about numbers concern three places of the source: the sum of the heads and
  the scaled noise in \<open>_face_encoder\<close>, the split, softmax and concat in
  \<open>_param_encoder\<close>, and the shifted images and the loss \<open>L_tv\<close> in \<open>_build_graph\<close>. Each
  is embedded a second time here, as a function of the values its inputs have in one run
  of the graph. Values are real numbers: the rounding of 32-bit floats is not modelled.
  A batch of vectors is a list of rows, an image batch is indexed batch, height, width,
  channel.
\<close>

type_synonym matrix = "real list list"
type_synonym tensor4 = "real list list list list"

subsection \<open>Element-wise operations with broadcasting, on batches of vectors\<close>






subsection \<open>The heads of \_face\_encoder, sample by sample\<close>






subsection \<open>Split, softmax and concat of \_param\_encoder\<close>

fun split_row :: "nat list \<Rightarrow> 'a list \<Rightarrow> 'a list list" where
  "split_row [] xs = []"
| "split_row (s # ss) xs = take s xs # split_row ss (drop s xs)"

text \<open>
  \<open>tf.split(preds, sizes, axis=1)\<close>: the sizes must add up to the width of \<open>preds\<close>; output
  \<open>k\<close> holds segment \<open>k\<close> of every row.
\<close>

definition tf_split :: "nat list \<Rightarrow> matrix \<Rightarrow> error + matrix list" where
  "tf_split sizes m =
     (if list_all (\<lambda>row. length row = sum_list sizes) m
      then Inr (map (\<lambda>k. map (\<lambda>row. split_row sizes row ! k) m) [0 ..< length sizes])
      else Inl InvalidArgumentError)"

definition softmax_row :: "real list \<Rightarrow> real list" where
  "softmax_row row = map (\<lambda>x. exp x / sum_list (map exp row)) row"

definition tf_softmax :: "matrix \<Rightarrow> matrix" where
  "tf_softmax m = map softmax_row m"

text \<open>\<open>tf.concat(ms, 1)\<close>: the inputs have the same number of rows; row \<open>b\<close> of the
  output is the rows \<open>b\<close> of the inputs one after the other.\<close>

definition tf_concat1 :: "matrix list \<Rightarrow> error + matrix" where
  "tf_concat1 ms =
     (case ms of
        [] \<Rightarrow> Inl InvalidArgumentError
      | m # _ \<Rightarrow>
          if list_all (\<lambda>m'. length m' = length m) ms
          then Inr (map (\<lambda>b. concat (map (\<lambda>m'. m' ! b) ms)) [0 ..< length m])
          else Inl InvalidArgumentError)"

text \<open>Lines 284 to 288, on the value of the flattened output of the convolutions.\<close>

definition param_encoder_value :: "nat list \<Rightarrow> matrix \<Rightarrow> error + matrix" where
  "param_encoder_value sizes preds =
     (case tf_split sizes preds of
        Inl e \<Rightarrow> Inl e
      | Inr param_sets \<Rightarrow> tf_concat1 (map tf_softmax param_sets))"

subsection \<open>The shifted images and L\_tv\<close>

text \<open>
  Operations on image batches. The element-wise operations are applied to operands of
  one shape here, and pair the entries position by position.
\<close>

definition zeros4 :: "nat \<Rightarrow> nat \<Rightarrow> nat \<Rightarrow> nat \<Rightarrow> tensor4" where
  "zeros4 b h w c = replicate b (replicate h (replicate w (replicate c 0)))"

definition concat_axis1 :: "tensor4 \<Rightarrow> tensor4 \<Rightarrow> tensor4" where
  "concat_axis1 x y = map2 (@) x y"

definition concat_axis2 :: "tensor4 \<Rightarrow> tensor4 \<Rightarrow> tensor4" where
  "concat_axis2 x y = map2 (map2 (@)) x y"

definition unary4 :: "(real \<Rightarrow> real) \<Rightarrow> tensor4 \<Rightarrow> tensor4" where
  "unary4 f x = map (map (map (map f))) x"

definition binary4 :: "(real \<Rightarrow> real \<Rightarrow> real) \<Rightarrow> tensor4 \<Rightarrow> tensor4 \<Rightarrow> tensor4" where
  "binary4 f x y = map2 (map2 (map2 (map2 f))) x y"

definition reduce_mean4 :: "tensor4 \<Rightarrow> real" where
  "reduce_mean4 x = (let xs = concat (concat (concat x)) in sum_list xs / real (length xs))"

text \<open>
  \<open>batch_size, height, width, channels = gen_faces.shape\<close> is the first argument;
  \<open>gen_faces[:, :, 1:, :]\<close> drops the first column of every image and
  \<open>gen_faces[:, 1:, :, :]\<close> its first row.
\<close>

definition left_shift :: "nat \<times> nat \<times> nat \<times> nat \<Rightarrow> tensor4 \<Rightarrow> tensor4" where
  "left_shift shp g =
     (case shp of (b, h, w, c) \<Rightarrow> concat_axis2 (map (map (drop 1)) g) (zeros4 b h 1 c))"

definition up_shift :: "nat \<times> nat \<times> nat \<times> nat \<Rightarrow> tensor4 \<Rightarrow> tensor4" where
  "up_shift shp g =
     (case shp of (b, h, w, c) \<Rightarrow> concat_axis1 (map (drop 1) g) (zeros4 b 1 w c))"

definition square :: "real \<Rightarrow> real" where
  "square x = x * x"

definition tv_terms :: "nat \<times> nat \<times> nat \<times> nat \<Rightarrow> tensor4 \<Rightarrow> tensor4" where
  "tv_terms shp g =
     unary4 sqrt
       (binary4 (+) (unary4 square (binary4 (-) (left_shift shp g) g))
                    (unary4 square (binary4 (-) (up_shift shp g) g)))"

definition l_tv_value :: "nat \<times> nat \<times> nat \<times> nat \<Rightarrow> tensor4 \<Rightarrow> real" where
  "l_tv_value shp g = reduce_mean4 (tv_terms shp g)"

text \<open>An image batch of shape \<open>(b, h, w, c)\<close>.\<close>

definition has_shape4 :: "nat \<times> nat \<times> nat \<times> nat \<Rightarrow> tensor4 \<Rightarrow> bool" where
  "has_shape4 shp g =
     (case shp of (b, h, w, c) \<Rightarrow>
        length g = b \<and>
        list_all (\<lambda>img. length img = h \<and>
          list_all (\<lambda>row. length row = w \<and> list_all (\<lambda>px. length px = c) row) img) g)"

text \<open>
  The spec's words for \<open>L_tv\<close>: the differences between horizontally and vertically
  neighbouring pixels. An image of width \<open>w\<close> has \<open>w - 1\<close> horizontal differences in
  every row, and an image of height \<open>h\<close> has \<open>h - 1\<close> vertical differences in every column.
\<close>

definition horizontal_differences :: "tensor4 \<Rightarrow> tensor4" where
  "horizontal_differences g = map (map (\<lambda>row. map2 (map2 (-)) (drop 1 row) row)) g"

definition vertical_differences :: "tensor4 \<Rightarrow> tensor4" where
  "vertical_differences g = map (\<lambda>img. map2 (map2 (map2 (-))) (drop 1 img) img) g"

text \<open>
  What the code computes at pixel \<open>(n, i, j, k)\<close>: the neighbour to the right and the
  neighbour below are read as 0 where the image ends.
\<close>

definition right_neighbour :: "nat \<times> nat \<times> nat \<times> nat \<Rightarrow> tensor4 \<Rightarrow> nat \<Rightarrow> nat \<Rightarrow> nat \<Rightarrow> nat \<Rightarrow> real" where
  "right_neighbour shp g n i j k =
     (case shp of (b, h, w, c) \<Rightarrow> if Suc j < w then g ! n ! i ! Suc j ! k else 0)"

definition lower_neighbour :: "nat \<times> nat \<times> nat \<times> nat \<Rightarrow> tensor4 \<Rightarrow> nat \<Rightarrow> nat \<Rightarrow> nat \<Rightarrow> nat \<Rightarrow> real" where
  "lower_neighbour shp g n i j k =
     (case shp of (b, h, w, c) \<Rightarrow> if Suc i < h then g ! n ! Suc i ! j ! k else 0)"

text \<open>The list, and the image batch, given entry by entry.\<close>

definition tabulate :: "nat \<Rightarrow> (nat \<Rightarrow> 'a) \<Rightarrow> 'a list" where
  "tabulate n f = map f [0 ..< n]"

definition tabulate4 :: "nat \<times> nat \<times> nat \<times> nat \<Rightarrow> (nat \<Rightarrow> nat \<Rightarrow> nat \<Rightarrow> nat \<Rightarrow> real) \<Rightarrow> tensor4" where
  "tabulate4 shp f =
     (case shp of (b, h, w, c) \<Rightarrow>
        tabulate b (\<lambda>n. tabulate h (\<lambda>i. tabulate w (\<lambda>j. tabulate c (\<lambda>k. f n i j k)))))"

definition pixel_tv :: "nat \<times> nat \<times> nat \<times> nat \<Rightarrow> tensor4 \<Rightarrow> nat \<Rightarrow> nat \<Rightarrow> nat \<Rightarrow> nat \<Rightarrow> real" where
  "pixel_tv shp g n i j k =
     sqrt ((right_neighbour shp g n i j k - g ! n ! i ! j ! k)\<^sup>2 +
           (lower_neighbour shp g n i j k - g ! n ! i ! j ! k)\<^sup>2)"


section \<open>Properties of the graph\<close>

lemma str_digit: "n < 10 \<Longrightarrow> str n = [digit n]"
  by (simp add: str.simps)

lemma str_0: "str 0 = ''0''"
  by (simp add: str_digit digit_def)

lemma str_Suc_0: "str (Suc 0) = ''1''"
  by (simp add: str_digit digit_def)

lemma ex_stages: "stages ex_arch = [0, 1]"
  by (simp add: stages_def ex_arch_def upt_rec)

lemma stage_params_wf:
  "wf_arch a \<Longrightarrow> i \<in> set (stages a) \<Longrightarrow> \<exists>f w s p. stage_params a i = Inr (f, w, s, p)"
  by (auto simp: wf_arch_def stages_def stage_params_def getitem_def)

lemma for_range_total:
  "(\<And>i x. i \<in> set js \<Longrightarrow> \<exists>y. body i x = Inr y) \<Longrightarrow> \<exists>y. for_range body js x = Inr y"
proof (induction js arbitrary: x)
  case Nil
  then show ?case by simp
next
  case (Cons i js)
  from Cons.prems[of i x] obtain y where y: "body i x = Inr y" by auto
  from Cons.IH[of y] Cons.prems obtain z where "for_range body js y = Inr z" by auto
  with y show ?case by simp
qed

lemma generator_stage_total:
  assumes "wf_arch a" "i \<in> set (stages a)"
  shows "\<exists>y. generator_stage a kp i x = Inr y"
proof -
  obtain f w s p where "stage_params a i = Inr (f, w, s, p)"
    using stage_params_wf[OF assms] by blast
  then show ?thesis by (simp add: generator_stage_def Let_def)
qed

lemma generator_total:
  "wf_arch (generator_model A) \<Longrightarrow> \<exists>t. generator A a e = Inr t"
  unfolding generator_def Let_def
  by (rule for_range_total) (rule generator_stage_total)

lemma param_encoder_stage_total:
  assumes "wf_arch a" "i \<in> set (stages a)"
  shows "\<exists>y. param_encoder_stage a kp i x = Inr y"
proof -
  obtain f w s p where "stage_params a i = Inr (f, w, s, p)"
    using stage_params_wf[OF assms] by blast
  then show ?thesis by (simp add: param_encoder_stage_def Let_def)
qed

lemma param_encoder_total:
  assumes wf: "wf_arch (param_encoder_model A)"
  shows "\<exists>t. param_encoder A B a e = Inr t"
proof -
  have "\<exists>t. for_range (param_encoder_stage (param_encoder_model A) (keep_prob a))
            (stages (param_encoder_model A)) e = Inr t"
    by (rule for_range_total) (rule param_encoder_stage_total[OF wf])
  then obtain t where "for_range (param_encoder_stage (param_encoder_model A) (keep_prob a))
            (stages (param_encoder_model A)) e = Inr t" by blast
  then show ?thesis by (simp add: param_encoder_def Let_def)
qed

lemma stages_Cons:
  "2 \<le> length (conv_filters a) \<Longrightarrow> stages a = 0 # [1 ..< length (conv_filters a) - 1]"
  by (simp add: stages_def upt_conv_Cons)

lemma getattr_unset:
  "attrs self nm = None \<Longrightarrow> getattr self nm = Inl (AttributeError nm)"
  by (simp add: getattr_def)

lemma avatar_synth_deconv_params:
  "stage_params a i = Inr (f, w, s, p) \<Longrightarrow>
   avatar_synth_deconv a i =
     Inr (conv2d_transpose ''Avatar_Synth'' f w s p (Some Relu) (''Deconv_'' @ str i) False)"
  by (simp add: avatar_synth_deconv_def)

lemma avatar_synth_stage_no_preds:
  assumes "attrs self ''preds'' = None" "stage_params a i = Inr (f, w, s, p)"
  shows "avatar_synth_stage a i (self, x) = Inl (AttributeError ''preds'')"
  using avatar_synth_deconv_params[OF assms(2)] getattr_unset[OF assms(1)]
  by (simp add: avatar_synth_stage_def)

lemma avatar_synth_fails:
  assumes "wf_arch (avatar_synth_model A)" "2 \<le> length (conv_filters (avatar_synth_model A))"
    "attrs self ''preds'' = None"
  shows "avatar_synth A B self params = Inl (AttributeError ''preds'')"
proof -
  have "0 \<in> set (stages (avatar_synth_model A))" using assms(2) by (simp add: stages_Cons)
  with assms(1) obtain f w s p where "stage_params (avatar_synth_model A) 0 = Inr (f, w, s, p)"
    using stage_params_wf by blast
  then show ?thesis using assms(2,3)
    by (simp add: avatar_synth_def Let_def stages_Cons avatar_synth_stage_no_preds)
qed

text \<open>
  Claim C2. The refinement convolution of the first stage of \<open>_avatar_synth\<close> reads
  \<open>self.preds\<close>. On a model object that has no attribute \<open>preds\<close>, as \<open>__init__\<close> leaves
  it, and for an architecture with at least one stage, \<open>_avatar_synth\<close> raises
  AttributeError. \<open>_build_graph\<close> reaches that call (the generator and the parameter
  encoder before it return) and raises the same error: it returns no model, hence no
  loss node.
\<close>

theorem avatar_synth_raises_AttributeError:
  assumes "wf_arch (generator_model A)" "wf_arch (param_encoder_model A)"
    "wf_arch (avatar_synth_model A)" "2 \<le> length (conv_filters (avatar_synth_model A))"
    "attrs self ''preds'' = None"
  shows "avatar_synth A B self params = Inl (AttributeError ''preds'') \<and>
         build_graph A B self n inputs = Inl (AttributeError ''preds'')"
proof -
  obtain face bitmoji where inp: "inputs = (face, bitmoji)" by (cases inputs)
  obtain fe n1 where fe: "face_encoder A (args self) n face = (fe, n1)"
    by (cases "face_encoder A (args self) n face")
  obtain g where g: "generator A (args self) fe = Inr g"
    using generator_total[OF assms(1)] by blast
  obtain ps where ps: "param_encoder A B (args self) g = Inr ps"
    using param_encoder_total[OF assms(2)] by blast
  have "avatar_synth A B self ps = Inl (AttributeError ''preds'')"
    by (rule avatar_synth_fails[OF assms(3,4,5)])
  then have "forward A B self n inputs = Inl (AttributeError ''preds'')"
    using g ps inp fe by (simp add: forward_def)
  then show ?thesis using avatar_synth_fails[OF assms(3,4,5)] by (simp add: build_graph_def)
qed

theorem avatar_synth_raises_AttributeError_witness:
  "wf_arch (generator_model ex_archs) \<and> wf_arch (param_encoder_model ex_archs) \<and>
   wf_arch (avatar_synth_model ex_archs) \<and> 2 \<le> length (conv_filters (avatar_synth_model ex_archs)) \<and>
   attrs (init ex_args) ''preds'' = None \<and>
   avatar_synth ex_archs ex_api (init ex_args) (Placeholder ''params'' []) = Inl (AttributeError ''preds'') \<and>
   build_graph ex_archs ex_api (init ex_args) 0 (Placeholder ''Face_Images'' [], Placeholder ''Bitmoji_Images'' []) = Inl (AttributeError ''preds'')"
  using avatar_synth_raises_AttributeError[of ex_archs "init ex_args" ex_api "Placeholder ''params'' []" 0 "(Placeholder ''Face_Images'' [], Placeholder ''Bitmoji_Images'' [])"]
  by (simp add: wf_arch_def ex_archs_def ex_arch_def init_def)



lemma for_range_snoc:
  "for_range body (js @ [i]) x =
     (case for_range body js x of Inl e \<Rightarrow> Inl e | Inr y \<Rightarrow> body i y)"
  by (induction js arbitrary: x) (auto split: sum.splits)

lemma stages_snoc:
  "2 \<le> length (conv_filters a) \<Longrightarrow>
   stages a = [0 ..< length (conv_filters a) - 2] @ [length (conv_filters a) - 2]"
proof -
  assume "2 \<le> length (conv_filters a)"
  then have "length (conv_filters a) - 1 = Suc (length (conv_filters a) - 2)" by simp
  then show ?thesis by (simp add: stages_def)
qed

lemma generator_stage_last:
  assumes "2 \<le> length (conv_filters a)" "generator_stage a kp (length (conv_filters a) - 2) y = Inr t"
  shows "\<exists>f w s p. t =
     Apply (conv2d_transpose ''Generator'' f 1 1 ''SAME'' (Some Relu)
              (''Conv_'' @ str (length (conv_filters a) - 2)) True)
       (Apply (conv2d_transpose ''Generator'' f w s p (Some Tanh)
              (''Deconv_'' @ str (length (conv_filters a) - 2)) True) y)"
proof -
  have l: "is_last a (length (conv_filters a) - 2)" "\<not> not_last a (length (conv_filters a) - 2)"
    using assms(1) by (auto simp: is_last_def not_last_def)
  show ?thesis
  proof (cases "stage_params a (length (conv_filters a) - 2)")
    case (Inl e)
    then show ?thesis using assms(2) by (simp add: generator_stage_def)
  next
    case (Inr q)
    obtain f w s p where "q = (f, w, s, p)" by (cases q)
    with Inr have "stage_params a (length (conv_filters a) - 2) = Inr (f, w, s, p)" by simp
    then show ?thesis using assms(2) l by (auto simp: generator_stage_def Let_def)
  qed
qed

text \<open>
  Claim C5 says that tanh is the last activation applied to the generator's output. In
  the code the last stage gives \<open>tanh\<close> to the deconvolution and \<open>tf.nn.relu\<close> to the
  refinement convolution that follows it: whenever the generator has a stage, its output
  is the output of \<open>Conv_(n-2)\<close> with activation ReLU, applied to the output of
  \<open>Deconv_(n-2)\<close> with activation tanh.
\<close>

theorem generator_output_activation:
  assumes "2 \<le> length (conv_filters (generator_model A))" "generator A a e = Inr t"
  shows "\<exists>l l' y. t = Apply l (Apply l' y) \<and>
           l_name l = ''Conv_'' @ str (length (conv_filters (generator_model A)) - 2) \<and>
           l_activation l = Some Relu \<and>
           l_name l' = ''Deconv_'' @ str (length (conv_filters (generator_model A)) - 2) \<and>
           l_activation l' = Some Tanh"
proof -
  let ?a = "generator_model A"
  let ?x = "Reshape [- 1, 1, 1, int (GENERATOR_INPUT_SIZE A)] (Apply (generator_fc A) e)"
  have "for_range (generator_stage ?a (keep_prob a))
          ([0 ..< length (conv_filters ?a) - 2] @ [length (conv_filters ?a) - 2]) ?x = Inr t"
    using assms by (simp add: generator_def Let_def stages_snoc)
  then obtain y where "generator_stage ?a (keep_prob a) (length (conv_filters ?a) - 2) y = Inr t"
    by (auto simp: for_range_snoc split: sum.splits)
  from generator_stage_last[OF assms(1) this] show ?thesis
    by (auto simp: conv2d_transpose_def)
qed

lemma ex_generator:
  "generator ex_archs ex_args e =
   Inr (Apply (conv2d_transpose ''Generator'' 3 1 1 ''SAME'' (Some Relu) ''Conv_1'' True)
       (Apply (conv2d_transpose ''Generator'' 3 4 2 ''SAME'' (Some Tanh) ''Deconv_1'' True)
       (Dropout (1/2) (Apply (batch_normalization ''Generator'' ''BN_0'')
       (Apply (conv2d_transpose ''Generator'' 4 1 1 ''SAME'' (Some Relu) ''Conv_0'' True)
       (Apply (conv2d_transpose ''Generator'' 4 4 2 ''SAME'' (Some Relu) ''Deconv_0'' True)
       (Reshape [- 1, 1, 1, 8] (Apply (generator_fc ex_archs) e))))))))"
  by (simp add: generator_def ex_archs_def ex_arch_def ex_args_def stages_def upt_rec
      generator_stage_def stage_params_def getitem_def is_last_def not_last_def str_0 str_Suc_0 Let_def)

theorem generator_output_activation_witness:
  "2 \<le> length (conv_filters (generator_model ex_archs)) \<and>
   (\<exists>t. generator ex_archs ex_args (Placeholder ''z'' []) = Inr t \<and>
     (\<exists>l l' y. t = Apply l (Apply l' y) \<and> l_name l = ''Conv_1'' \<and> l_activation l = Some Relu \<and>
        l_name l' = ''Deconv_1'' \<and> l_activation l' = Some Tanh))"
  using generator_output_activation[of ex_archs ex_args "Placeholder ''z'' []", OF _ ex_generator]
  by (simp add: ex_generator) (simp add: ex_archs_def ex_arch_def str_Suc_0 conv2d_transpose_def)



lemma discriminator_conv_geometry:
  "stage_geometry (discriminator_conv a i) = stage_geometry (avatar_synth_deconv a i)"
proof (cases "stage_params a i")
  case (Inl e)
  then show ?thesis by (simp add: discriminator_conv_def avatar_synth_deconv_def stage_geometry_def)
next
  case (Inr q)
  obtain f w s p where "q = (f, w, s, p)" by (cases q)
  with Inr have "stage_params a i = Inr (f, w, s, p)" by simp
  then show ?thesis
    by (simp add: discriminator_conv_def avatar_synth_deconv_def layer_geometry_def
        conv2d_def conv2d_transpose_def stage_geometry_def)
qed

lemma discriminator_stage_layers:
  assumes "discriminator_stage a kp i x = Inr y"
  shows "\<exists>l. discriminator_conv a i = Inr l \<and>
           filter (\<lambda>l. l_fn l = Conv2d) (layers_of y) =
             filter (\<lambda>l. l_fn l = Conv2d) (layers_of x) @ [l]"
proof (cases "stage_params a i")
  case (Inl e)
  then show ?thesis using assms by (simp add: discriminator_stage_def discriminator_conv_def)
next
  case (Inr q)
  obtain f w s p where "q = (f, w, s, p)" by (cases q)
  with Inr have "stage_params a i = Inr (f, w, s, p)" by simp
  then show ?thesis using assms
    by (auto simp: discriminator_stage_def discriminator_conv_def Let_def conv2d_def
        batch_normalization_def split: if_splits)
qed

lemma discriminator_loop_layers:
  "for_range (discriminator_stage a kp) js x = Inr t \<Longrightarrow>
   map (\<lambda>l. Inr (layer_geometry l)) (filter (\<lambda>l. l_fn l = Conv2d) (layers_of t)) =
     map (\<lambda>l. Inr (layer_geometry l)) (filter (\<lambda>l. l_fn l = Conv2d) (layers_of x)) @
     map (\<lambda>i. stage_geometry (avatar_synth_deconv a i)) js"
proof (induction js arbitrary: x)
  case Nil
  then show ?case by simp
next
  case (Cons i js)
  from Cons.prems obtain y where y: "discriminator_stage a kp i x = Inr y"
    and t: "for_range (discriminator_stage a kp) js y = Inr t"
    by (auto split: sum.splits)
  from discriminator_stage_layers[OF y] obtain l where l: "discriminator_conv a i = Inr l"
    and ly: "filter (\<lambda>l. l_fn l = Conv2d) (layers_of y) =
             filter (\<lambda>l. l_fn l = Conv2d) (layers_of x) @ [l]" by blast
  have "stage_geometry (avatar_synth_deconv a i) = Inr (layer_geometry l)"
    using discriminator_conv_geometry[of a i] l by (simp add: stage_geometry_def)
  with Cons.IH[OF t] ly show ?case by simp
qed

text \<open>
  Claim C10. The discriminator loops over the stages of \<open>archs.avatar_synth_model\<close>; at
  every stage its convolution has the filter count, kernel width, stride and padding
  mode of the synthesizer's deconvolution of that stage (or both raise the same
  IndexError); no other constant of \<open>model_architectures\<close> changes the discriminator;
  and the convolutions of the graph it returns have, in order, the geometry of the
  synthesizer's stages.
\<close>

theorem discriminator_architecture:
  "discriminator A a imgs =
     for_range (discriminator_stage (avatar_synth_model A) (keep_prob a))
       (stages (avatar_synth_model A)) imgs \<and>
   stage_geometry (discriminator_conv (avatar_synth_model A) i) =
     stage_geometry (avatar_synth_deconv (avatar_synth_model A) i) \<and>
   discriminator (A\<lparr>generator_model := g, param_encoder_model := p, IMG_DIMS := d,
       FACE_ENCODING_SIZE := fe, GENERATOR_INPUT_SIZE := gi\<rparr>) a imgs = discriminator A a imgs \<and>
   (discriminator A a (Placeholder nm sh) = Inr t \<longrightarrow>
      map (\<lambda>l. Inr (layer_geometry l)) (filter (\<lambda>l. l_fn l = Conv2d) (layers_of t)) =
      map (\<lambda>i. stage_geometry (avatar_synth_deconv (avatar_synth_model A) i))
        (stages (avatar_synth_model A)))"
proof -
  have "discriminator A a (Placeholder nm sh) = Inr t \<Longrightarrow>
      map (\<lambda>l. Inr (layer_geometry l)) (filter (\<lambda>l. l_fn l = Conv2d) (layers_of t)) =
      map (\<lambda>i. stage_geometry (avatar_synth_deconv (avatar_synth_model A) i))
        (stages (avatar_synth_model A))"
    using discriminator_loop_layers[of "avatar_synth_model A" "keep_prob a"
        "stages (avatar_synth_model A)" "Placeholder nm sh" t]
    by (simp add: discriminator_def Let_def)
  then show ?thesis by (simp add: discriminator_def discriminator_conv_geometry Let_def)
qed

lemma ex_discriminator:
  "discriminator ex_archs ex_args x =
     Inr (Apply (conv2d ''Discriminator'' 3 4 2 ''SAME'' (Some Sigmoid) ''Conv_1'')
         (Dropout (1 / 2) (Apply (batch_normalization ''Discriminator'' ''BN_0'')
         (Apply (conv2d ''Discriminator'' 4 4 2 ''SAME'' (Some LeakyRelu) ''Conv_0'') x))))"
  by (simp add: discriminator_def ex_archs_def ex_stages Let_def)
     (simp add: discriminator_stage_def discriminator_conv_def stage_params_def getitem_def
        ex_arch_def ex_args_def is_last_def not_last_def str_0 str_Suc_0 Let_def)

theorem discriminator_architecture_witness:
  "discriminator ex_archs ex_args (Placeholder ''Bitmoji_Images'' []) =
     Inr (Apply (conv2d ''Discriminator'' 3 4 2 ''SAME'' (Some Sigmoid) ''Conv_1'')
         (Dropout (1 / 2) (Apply (batch_normalization ''Discriminator'' ''BN_0'')
         (Apply (conv2d ''Discriminator'' 4 4 2 ''SAME'' (Some LeakyRelu) ''Conv_0'')
           (Placeholder ''Bitmoji_Images'' []))))) \<and>
   map (\<lambda>i. stage_geometry (avatar_synth_deconv (avatar_synth_model ex_archs) i))
        (stages (avatar_synth_model ex_archs)) =
     [Inr (4, 4, 2, ''SAME''), Inr (3, 4, 2, ''SAME'')]"
  using discriminator_architecture[where A = ex_archs and a = ex_args and nm = "''Bitmoji_Images''" and sh = "[]"
      and t = "Apply (conv2d ''Discriminator'' 3 4 2 ''SAME'' (Some Sigmoid) ''Conv_1'')
         (Dropout (1 / 2) (Apply (batch_normalization ''Discriminator'' ''BN_0'')
         (Apply (conv2d ''Discriminator'' 4 4 2 ''SAME'' (Some LeakyRelu) ''Conv_0'')
           (Placeholder ''Bitmoji_Images'' []))))"]
  by (simp add: ex_discriminator)
     (simp add: layer_geometry_def conv2d_def batch_normalization_def)












text \<open>
  \<open>generator_call\<close> builds the nodes that \<open>generator\<close> builds: the store only adds the
  cases in which fetching a weight raises.
\<close>

lemma for_range_simulation:
  assumes "\<And>i s s'. body' i s = Inr s' \<Longrightarrow> body i (fst s) = Inr (fst s')"
  shows "for_range body' js s = Inr s' \<Longrightarrow> for_range body js (fst s) = Inr (fst s')"
proof (induction js arbitrary: s)
  case Nil
  then show ?case by auto
next
  case (Cons i js)
  from Cons.prems obtain s1 where s1: "body' i s = Inr s1" "for_range body' js s1 = Inr s'"
    by (auto split: sum.splits)
  from assms[OF s1(1)] Cons.IH[OF s1(2)] show ?case by simp
qed

lemma apply_layer_node:
  "apply_layer l t vars = Inr (t', vars') \<Longrightarrow> t' = Apply l t"
  by (auto simp: apply_layer_def split: option.splits sum.splits)

lemma generator_stage_call_node:
  assumes "generator_stage_call a kp i s = Inr s'"
  shows "generator_stage a kp i (fst s) = Inr (fst s')"
  using assms
  by (auto simp: generator_stage_call_def generator_stage_def Let_def
      split: sum.splits if_splits dest!: apply_layer_node)

lemma generator_call_node:
  assumes "generator_call A a vars encodings = Inr (t, vars')"
  shows "generator A a encodings = Inr t"
proof -
  from assms obtain p vs where
    p: "apply_layer (generator_fc A) encodings vars = Inr (p, vs)"
    and f: "for_range (generator_stage_call (generator_model A) (keep_prob a))
              (stages (generator_model A))
              (Reshape [- 1, 1, 1, int (GENERATOR_INPUT_SIZE A)] p, vs) = Inr (t, vars')"
    by (auto simp: generator_call_def Let_def split: sum.splits)
  from for_range_simulation[where body = "generator_stage (generator_model A) (keep_prob a)",
      OF generator_stage_call_node f]
  show ?thesis using apply_layer_node[OF p] by (simp add: generator_def Let_def)
qed


































lemma length_split_row: "length (split_row sizes xs) = length sizes"
  by (induction sizes arbitrary: xs) auto

lemma map_length_split_row:
  "sum_list sizes \<le> length xs \<Longrightarrow> map length (split_row sizes xs) = sizes"
  by (induction sizes arbitrary: xs) auto

lemma concat_split_row:
  "length xs = sum_list sizes \<Longrightarrow> concat (split_row sizes xs) = xs"
proof (induction sizes arbitrary: xs)
  case Nil
  then show ?case by simp
next
  case (Cons s ss)
  then have "concat (split_row ss (drop s xs)) = drop s xs" by simp
  then show ?case by simp
qed

lemma split_row_concat:
  "map length segs = sizes \<Longrightarrow> split_row sizes (concat segs) = segs"
  by (induction segs arbitrary: sizes) auto

lemma length_softmax_row: "length (softmax_row r) = length r"
  by (simp add: softmax_row_def)

lemma sum_exp_nonneg: "0 \<le> sum_list (map exp (r :: real list))"
  by (induction r) simp_all

lemma sum_exp_pos:
  assumes "r \<noteq> []"
  shows "0 < sum_list (map exp (r :: real list))"
proof (cases r)
  case Nil
  then show ?thesis using assms by simp
next
  case (Cons x xs)
  have "0 < exp x" by simp
  then show ?thesis using sum_exp_nonneg[of xs] Cons by (simp add: add_pos_nonneg)
qed

lemma sum_list_divide:
  "sum_list (map (\<lambda>x. f x / c) xs) = sum_list (map f xs) / (c :: real)"
  by (induction xs) (simp_all add: add_divide_distrib)

lemma sum_list_softmax_row:
  assumes "r \<noteq> []"
  shows "sum_list (softmax_row r) = 1"
proof -
  have "sum_list (softmax_row r) = sum_list (map exp r) / sum_list (map exp r)"
    unfolding softmax_row_def by (rule sum_list_divide)
  then show ?thesis using sum_exp_pos[OF assms] by simp
qed

lemma softmax_row_nonneg: "list_all (\<lambda>x. 0 \<le> x) (softmax_row r)"
  by (simp add: softmax_row_def list_all_iff sum_exp_nonneg)

lemma tf_concat1_rows:
  assumes "ms \<noteq> []" "list_all (\<lambda>m. length m = n) ms"
  shows "tf_concat1 ms = Inr (map (\<lambda>b. concat (map (\<lambda>m. m ! b) ms)) [0 ..< n])"
proof (cases ms)
  case Nil
  then show ?thesis using assms by simp
next
  case (Cons m rest)
  then have "length m = n" "list_all (\<lambda>m'. length m' = length m) ms"
    using assms(2) by (simp_all add: list_all_iff)
  then show ?thesis using Cons by (simp add: tf_concat1_def)
qed

lemma map_nth_upt: "map (\<lambda>i. f (xs ! i)) [0 ..< length xs] = map f xs"
proof -
  have "map (\<lambda>i. f (xs ! i)) [0 ..< length xs] = map f (map (nth xs) [0 ..< length xs])"
    by (simp add: comp_def)
  then show ?thesis by (simp add: map_nth)
qed

lemma param_encoder_value_rows:
  assumes "sizes \<noteq> []" "list_all (\<lambda>row. length row = sum_list sizes) preds"
  shows "param_encoder_value sizes preds =
           Inr (map (\<lambda>row. concat (map softmax_row (split_row sizes row))) preds)"
proof -
  let ?K = "length sizes"
  let ?sets = "map (\<lambda>k. map (\<lambda>row. split_row sizes row ! k) preds) [0 ..< ?K]"
  have split: "tf_split sizes preds = Inr ?sets"
    using assms(2) by (simp add: tf_split_def)
  have "tf_concat1 (map tf_softmax ?sets) =
          Inr (map (\<lambda>b. concat (map (\<lambda>m. m ! b) (map tf_softmax ?sets))) [0 ..< length preds])"
    by (rule tf_concat1_rows) (use assms(1) in \<open>simp_all add: list_all_iff tf_softmax_def\<close>)
  moreover have "map (\<lambda>b. concat (map (\<lambda>m. m ! b) (map tf_softmax ?sets))) [0 ..< length preds] =
      map (\<lambda>b. concat (map softmax_row (split_row sizes (preds ! b)))) [0 ..< length preds]"
  proof (rule map_cong[OF refl])
    fix b assume "b \<in> set [0 ..< length preds]"
    then have b: "b < length preds" by simp
    have "map (\<lambda>m. m ! b) (map tf_softmax ?sets) =
          map (\<lambda>k. softmax_row (split_row sizes (preds ! b) ! k)) [0 ..< ?K]"
      using b by (simp add: tf_softmax_def comp_def)
    also have "\<dots> = map softmax_row (split_row sizes (preds ! b))"
      using map_nth_upt[of softmax_row "split_row sizes (preds ! b)"]
      by (simp add: length_split_row)
    finally show "concat (map (\<lambda>m. m ! b) (map tf_softmax ?sets)) =
                  concat (map softmax_row (split_row sizes (preds ! b)))" by simp
  qed
  moreover have "map (\<lambda>b. concat (map softmax_row (split_row sizes (preds ! b)))) [0 ..< length preds] =
      map (\<lambda>row. concat (map softmax_row (split_row sizes row))) preds"
    by (rule map_nth_upt)
  ultimately show ?thesis using split by (simp add: param_encoder_value_def)
qed

lemma softmax_segments:
  assumes "list_all (\<lambda>s. 0 < s) sizes" "length row = sum_list sizes"
  shows "split_row sizes (concat (map softmax_row (split_row sizes row))) =
           map softmax_row (split_row sizes row)"
    and "list_all (\<lambda>x. 0 \<le> x) (concat (map softmax_row (split_row sizes row)))"
    and "list_all (\<lambda>seg. sum_list seg = 1) (map softmax_row (split_row sizes row))"
proof -
  let ?segs = "split_row sizes row"
  have lens: "map length ?segs = sizes" using assms(2) by (simp add: map_length_split_row)
  then have lens': "map length (map softmax_row ?segs) = sizes"
    by (simp add: comp_def length_softmax_row)
  show "split_row sizes (concat (map softmax_row ?segs)) = map softmax_row ?segs"
    by (rule split_row_concat[OF lens'])
  have ne: "seg \<noteq> []" if "seg \<in> set ?segs" for seg
  proof -
    from that obtain k where k: "k < length ?segs" "seg = ?segs ! k"
      by (auto simp: in_set_conv_nth)
    then have "length seg = sizes ! k" using lens by (metis nth_map)
    moreover have "0 < sizes ! k" using assms(1) k
      by (simp add: list_all_length length_split_row)
    ultimately show ?thesis by auto
  qed
  then show "list_all (\<lambda>seg. sum_list seg = 1) (map softmax_row ?segs)"
    by (simp add: list_all_iff sum_list_softmax_row)
  show "list_all (\<lambda>x. 0 \<le> x) (concat (map softmax_row ?segs))"
    using softmax_row_nonneg by (auto simp: list_all_iff)
qed

lemma ex_param_encoder:
  "param_encoder ex_archs ex_api ex_args x =
     Inr (Concat
       [Softmax (Split [2, 1] 1 0 (Flatten
          (Apply (conv2d ''Param_Encoder'' 3 4 2 ''SAME'' (Some Sigmoid) ''Conv_1'')
          (Dropout (1 / 2) (Apply (batch_normalization ''Param_Encoder'' ''BN_0'')
          (Apply (conv2d ''Param_Encoder'' 4 4 2 ''SAME'' (Some LeakyRelu) ''Conv_0'') x)))))),
        Softmax (Split [2, 1] 1 1 (Flatten
          (Apply (conv2d ''Param_Encoder'' 3 4 2 ''SAME'' (Some Sigmoid) ''Conv_1'')
          (Dropout (1 / 2) (Apply (batch_normalization ''Param_Encoder'' ''BN_0'')
          (Apply (conv2d ''Param_Encoder'' 4 4 2 ''SAME'' (Some LeakyRelu) ''Conv_0'') x))))))] 1)"
  by (simp add: param_encoder_def ex_archs_def ex_api_def stages_def upt_rec ex_arch_def Let_def)
     (simp add: param_encoder_stage_def stage_params_def getitem_def
        ex_arch_def ex_args_def is_last_def not_last_def str.simps[of 0] str.simps[of "Suc 0"] digit_def Let_def)

lemma param_encoder_graph:
  "param_encoder A B a x = Inr t \<Longrightarrow>
   \<exists>p. t = Concat (map (\<lambda>k. Softmax (Split (BITMOJI_PARAM_SPLIT B) 1 k (Flatten p)))
                 [0 ..< length (BITMOJI_PARAM_SPLIT B)]) 1"
  by (auto simp: param_encoder_def Let_def comp_def split: sum.splits)

text \<open>
  Claim C4. The graph \<open>_param_encoder\<close> returns is the concat, along axis 1, of the
  softmax of every output of the split of the flattened convolution output by
  \<open>BITMOJI_PARAM_SPLIT\<close>. On values, for segment sizes that are positive and add up to the
  width of the flattened rows: every output row is the input row with each segment
  replaced by its softmax, in the same order; it has the same width; splitting it again
  gives the softmax of each input segment; every entry is non-negative; and every segment
  sums to 1.
\<close>

theorem param_encoder_softmax_segments:
  assumes "BITMOJI_PARAM_SPLIT B \<noteq> []" "list_all (\<lambda>s. 0 < s) (BITMOJI_PARAM_SPLIT B)"
    and "list_all (\<lambda>row. length row = sum_list (BITMOJI_PARAM_SPLIT B)) preds"
  shows "(param_encoder A B a x = Inr t \<longrightarrow>
            (\<exists>p. t = Concat (map (\<lambda>k. Softmax (Split (BITMOJI_PARAM_SPLIT B) 1 k (Flatten p)))
                          [0 ..< length (BITMOJI_PARAM_SPLIT B)]) 1)) \<and>
         (\<exists>out. param_encoder_value (BITMOJI_PARAM_SPLIT B) preds = Inr out \<and>
            out = map (\<lambda>row. concat (map softmax_row (split_row (BITMOJI_PARAM_SPLIT B) row))) preds \<and>
            list_all (\<lambda>row. length row = sum_list (BITMOJI_PARAM_SPLIT B)) out \<and>
            map (split_row (BITMOJI_PARAM_SPLIT B)) out =
              map (\<lambda>row. map softmax_row (split_row (BITMOJI_PARAM_SPLIT B) row)) preds \<and>
            list_all (\<lambda>row. list_all (\<lambda>x. 0 \<le> x) row) out \<and>
            list_all (\<lambda>row. list_all (\<lambda>seg. sum_list seg = 1)
                              (split_row (BITMOJI_PARAM_SPLIT B) row)) out)"
proof -
  let ?sizes = "BITMOJI_PARAM_SPLIT B"
  let ?f = "\<lambda>row. concat (map softmax_row (split_row ?sizes row))"
  have rows: "length row = sum_list ?sizes" if "row \<in> set preds" for row
    using assms(3) that by (simp add: list_all_iff)
  have 1: "list_all (\<lambda>row. length row = sum_list ?sizes) (map ?f preds)"
  proof -
    have "length (?f row) = sum_list ?sizes" if "row \<in> set preds" for row
    proof -
      have "length (?f row) = sum_list (map length (map softmax_row (split_row ?sizes row)))"
        by (simp add: length_concat)
      also have "map length (map softmax_row (split_row ?sizes row)) = ?sizes"
        using rows[OF that] by (simp add: comp_def length_softmax_row map_length_split_row)
      finally show ?thesis .
    qed
    then show ?thesis by (simp add: list_all_iff)
  qed
  have 2: "map (split_row ?sizes) (map ?f preds) =
           map (\<lambda>row. map softmax_row (split_row ?sizes row)) preds"
    using softmax_segments(1)[OF assms(2) rows] by simp
  have 3: "list_all (\<lambda>row. list_all (\<lambda>x. 0 \<le> x) row) (map ?f preds)"
    using softmax_segments(2)[OF assms(2) rows] by (simp add: list_all_iff)
  have 4: "list_all (\<lambda>row. list_all (\<lambda>seg. sum_list seg = 1) (split_row ?sizes row))
             (map ?f preds)"
    using softmax_segments(1,3)[OF assms(2) rows] by (simp add: list_all_iff)
  have 5: "param_encoder A B a x = Inr t \<longrightarrow>
            (\<exists>p. t = Concat (map (\<lambda>k. Softmax (Split ?sizes 1 k (Flatten p)))
                          [0 ..< length ?sizes]) 1)"
    using param_encoder_graph by blast
  show ?thesis
    using param_encoder_value_rows[OF assms(1,3)] 1 2 3 4 5 by blast
qed

theorem param_encoder_softmax_segments_witness:
  "BITMOJI_PARAM_SPLIT ex_api \<noteq> [] \<and> list_all (\<lambda>s. 0 < s) (BITMOJI_PARAM_SPLIT ex_api) \<and>
   list_all (\<lambda>row. length row = sum_list (BITMOJI_PARAM_SPLIT ex_api)) [[0, 0, 5 :: real]] \<and>
   (\<exists>t. param_encoder ex_archs ex_api ex_args (Placeholder ''gen_faces'' []) = Inr t \<and>
      (\<exists>p. t = Concat [Softmax (Split [2, 1] 1 0 (Flatten p)),
                        Softmax (Split [2, 1] 1 1 (Flatten p))] 1)) \<and>
   param_encoder_value (BITMOJI_PARAM_SPLIT ex_api) [[0, 0, 5]] = Inr [[1 / 2, 1 / 2, 1]]"
  using param_encoder_softmax_segments[of ex_api "[[0, 0, 5]]" ex_archs ex_args
      "Placeholder ''gen_faces'' []"]
  by (simp add: ex_param_encoder) (simp add: ex_api_def softmax_row_def)

lemma tabulate_cong:
  "(\<And>i. i < n \<Longrightarrow> f i = g i) \<Longrightarrow> tabulate n f = tabulate n g"
  by (simp add: tabulate_def)

lemma length_tabulate: "length (tabulate n f) = n"
  by (simp add: tabulate_def)

lemma list_tabulate: "length xs = n \<Longrightarrow> xs = tabulate n (\<lambda>i. xs ! i)"
  using map_nth[of xs] by (auto simp: tabulate_def)

lemma map_tabulate: "map f (tabulate n g) = tabulate n (\<lambda>i. f (g i))"
  by (simp add: tabulate_def comp_def)

lemma map2_tabulate:
  "map2 f (tabulate n g) (tabulate n h) = tabulate n (\<lambda>i. f (g i) (h i))"
  by (simp add: tabulate_def zip_map_map zip_same_conv_map comp_def)

lemma replicate_tabulate: "replicate n x = tabulate n (\<lambda>i. x)"
  by (simp add: tabulate_def map_replicate_const)

lemma drop_Suc_0_tabulate:
  "drop (Suc 0) (tabulate n f) = tabulate (n - Suc 0) (\<lambda>i. f (Suc i))"
proof -
  have "drop (Suc 0) (map f [0 ..< n]) = map f [Suc 0 ..< n]" by (simp add: drop_map)
  also have "[Suc 0 ..< n] = map Suc [0 ..< n - Suc 0]" by (cases n) (simp_all add: map_Suc_upt)
  finally show ?thesis by (simp add: tabulate_def comp_def)
qed

lemma tabulate_Suc_0: "tabulate (Suc 0) f = [f 0]"
  by (simp add: tabulate_def)

lemma tabulate_snoc:
  "0 < n \<Longrightarrow> tabulate (n - Suc 0) f @ [z] = tabulate n (\<lambda>i. if Suc i < n then f i else z)"
proof -
  assume "0 < n"
  then obtain m where m: "n = Suc m" by (cases n) auto
  show ?thesis unfolding m by (simp add: tabulate_def)
qed

lemma has_shape4_tabulate:
  assumes "has_shape4 (b, h, w, c) g"
  shows "g = tabulate4 (b, h, w, c) (\<lambda>n i j k. g ! n ! i ! j ! k)"
proof -
  have l1: "length g = b" using assms by (simp add: has_shape4_def)
  have l2: "length (g ! n) = h" if "n < b" for n
    using assms that by (simp add: has_shape4_def list_all_length)
  have l3: "length (g ! n ! i) = w" if "n < b" "i < h" for n i
    using assms that by (simp add: has_shape4_def list_all_length)
  have l4: "length (g ! n ! i ! j) = c" if "n < b" "i < h" "j < w" for n i j
    using assms that by (simp add: has_shape4_def list_all_length)
  have "g = tabulate b (\<lambda>n. g ! n)" by (rule list_tabulate[OF l1])
  also have "\<dots> = tabulate b (\<lambda>n. tabulate h (\<lambda>i. g ! n ! i))"
    by (rule tabulate_cong) (rule list_tabulate[OF l2])
  also have "\<dots> = tabulate b (\<lambda>n. tabulate h (\<lambda>i. tabulate w (\<lambda>j. g ! n ! i ! j)))"
    by (intro tabulate_cong list_tabulate l3)
  also have "\<dots> = tabulate b (\<lambda>n. tabulate h (\<lambda>i. tabulate w (\<lambda>j. tabulate c (\<lambda>k. g ! n ! i ! j ! k))))"
    by (intro tabulate_cong list_tabulate l4)
  finally show ?thesis by (simp add: tabulate4_def)
qed

lemma unary4_tabulate:
  "unary4 f (tabulate4 (b, h, w, c) F) = tabulate4 (b, h, w, c) (\<lambda>n i j k. f (F n i j k))"
  by (simp add: unary4_def tabulate4_def map_tabulate)

lemma binary4_tabulate:
  "binary4 f (tabulate4 (b, h, w, c) F) (tabulate4 (b, h, w, c) G) =
     tabulate4 (b, h, w, c) (\<lambda>n i j k. f (F n i j k) (G n i j k))"
  by (simp add: binary4_def tabulate4_def map2_tabulate)

lemma left_shift_tabulate:
  assumes "0 < w"
  shows "left_shift (b, h, w, c) (tabulate4 (b, h, w, c) F) =
           tabulate4 (b, h, w, c) (\<lambda>n i j k. if Suc j < w then F n i (Suc j) k else 0)"
proof -
  have "tabulate (w - Suc 0) (\<lambda>j. tabulate c (F n i (Suc j))) @ [tabulate c (\<lambda>k. 0)] =
        tabulate w (\<lambda>j. tabulate c (\<lambda>k. if Suc j < w then F n i (Suc j) k else 0))" for n i
    unfolding tabulate_snoc[OF assms] by (rule tabulate_cong) simp
  then show ?thesis
    by (simp add: left_shift_def concat_axis2_def zeros4_def tabulate4_def map_tabulate
        replicate_tabulate map2_tabulate drop_Suc_0_tabulate tabulate_Suc_0)
qed

lemma up_shift_tabulate:
  assumes "0 < h"
  shows "up_shift (b, h, w, c) (tabulate4 (b, h, w, c) F) =
           tabulate4 (b, h, w, c) (\<lambda>n i j k. if Suc i < h then F n (Suc i) j k else 0)"
proof -
  have "tabulate (h - Suc 0) (\<lambda>i. tabulate w (\<lambda>j. tabulate c (F n (Suc i) j))) @
          [tabulate w (\<lambda>j. tabulate c (\<lambda>k. 0))] =
        tabulate h (\<lambda>i. tabulate w (\<lambda>j. tabulate c (\<lambda>k. if Suc i < h then F n (Suc i) j k else 0)))" for n
    unfolding tabulate_snoc[OF assms] by (rule tabulate_cong) simp
  then show ?thesis
    by (simp add: up_shift_def concat_axis1_def zeros4_def tabulate4_def map_tabulate
        replicate_tabulate map2_tabulate drop_Suc_0_tabulate tabulate_Suc_0)
qed

lemma sum_list_concat_map: "sum_list (concat xss) = (\<Sum>xs\<leftarrow>xss. sum_list (xs :: real list))"
  by (induction xss) auto

lemma length_concat_uniform:
  "(\<And>xs. xs \<in> set xss \<Longrightarrow> length xs = m) \<Longrightarrow> length (concat xss) = length xss * m"
  by (induction xss) auto

lemma length_flat_tabulate4:
  "length (concat (concat (concat (tabulate4 (b, h, w, c) F)))) = b * h * w * c"
proof -
  let ?T = "tabulate4 (b, h, w, c) F"
  have 1: "length (concat ?T) = b * h"
    by (rule trans[OF length_concat_uniform[where m = h]])
       (auto simp: tabulate4_def tabulate_def)
  have 2: "length (concat (concat ?T)) = b * h * w"
    by (rule trans[OF length_concat_uniform[where m = w]])
       (auto simp: 1, auto simp: tabulate4_def tabulate_def)
  show ?thesis
    by (rule trans[OF length_concat_uniform[where m = c]])
       (auto simp: 2, auto simp: tabulate4_def tabulate_def)
qed

lemma reduce_mean4_tabulate:
  "reduce_mean4 (tabulate4 (b, h, w, c) F) =
     (\<Sum>n\<leftarrow>[0 ..< b]. \<Sum>i\<leftarrow>[0 ..< h]. \<Sum>j\<leftarrow>[0 ..< w]. \<Sum>k\<leftarrow>[0 ..< c]. F n i j k) /
       real (b * h * w * c)"
proof -
  let ?T = "tabulate4 (b, h, w, c) F"
  have s: "sum_list (concat (concat (concat ?T))) =
      (\<Sum>n\<leftarrow>[0 ..< b]. \<Sum>i\<leftarrow>[0 ..< h]. \<Sum>j\<leftarrow>[0 ..< w]. \<Sum>k\<leftarrow>[0 ..< c]. F n i j k)"
    by (simp add: sum_list_concat_map map_concat tabulate4_def tabulate_def comp_def)
  show ?thesis
    unfolding reduce_mean4_def Let_def s length_flat_tabulate4 ..
qed

text \<open>
  Claim C8, amended. For an image batch of shape \<open>(b, h, w, c)\<close> with \<open>h\<close> and \<open>w\<close> positive,
  the term of \<open>L_tv\<close> at an entry is the square root of the squared difference to the entry
  one column to the right plus the squared difference to the entry one row below, where
  the entry to the right of the last column and the entry below the last row are read as
  0; \<open>L_tv\<close> is the mean of these terms over all entries.
\<close>

theorem l_tv_value_zero_padded:
  assumes "has_shape4 (b, h, w, c) g" "0 < h" "0 < w"
  shows "tv_terms (b, h, w, c) g = tabulate4 (b, h, w, c) (pixel_tv (b, h, w, c) g) \<and>
         l_tv_value (b, h, w, c) g =
           (\<Sum>n\<leftarrow>[0 ..< b]. \<Sum>i\<leftarrow>[0 ..< h]. \<Sum>j\<leftarrow>[0 ..< w]. \<Sum>k\<leftarrow>[0 ..< c].
              pixel_tv (b, h, w, c) g n i j k) / real (b * h * w * c)"
proof -
  let ?shp = "(b, h, w, c)"
  let ?F = "\<lambda>n i j k. g ! n ! i ! j ! k"
  have g: "g = tabulate4 ?shp ?F" by (rule has_shape4_tabulate[OF assms(1)])
  have l: "left_shift ?shp g = tabulate4 ?shp (\<lambda>n i j k. if Suc j < w then ?F n i (Suc j) k else 0)"
    using left_shift_tabulate[OF assms(3), of b h c ?F] g by simp
  have u: "up_shift ?shp g = tabulate4 ?shp (\<lambda>n i j k. if Suc i < h then ?F n (Suc i) j k else 0)"
    using up_shift_tabulate[OF assms(2), of b w c ?F] g by simp
  have dl: "binary4 (-) (left_shift ?shp g) g =
      tabulate4 ?shp (\<lambda>n i j k. (if Suc j < w then ?F n i (Suc j) k else 0) - ?F n i j k)"
    unfolding l by (subst (2) g) (rule binary4_tabulate)
  have du: "binary4 (-) (up_shift ?shp g) g =
      tabulate4 ?shp (\<lambda>n i j k. (if Suc i < h then ?F n (Suc i) j k else 0) - ?F n i j k)"
    unfolding u by (subst (2) g) (rule binary4_tabulate)
  have t: "tv_terms ?shp g = tabulate4 ?shp (pixel_tv ?shp g)"
    unfolding tv_terms_def dl du unary4_tabulate binary4_tabulate
    by (simp add: pixel_tv_def[abs_def] right_neighbour_def lower_neighbour_def square_def
        power2_eq_square)
  show ?thesis unfolding l_tv_value_def t by (simp add: reduce_mean4_tabulate)
qed

theorem l_tv_value_zero_padded_witness:
  "has_shape4 (1, 1, 2, 1) [[[[1], [1]]]] \<and> (0 :: nat) < 1 \<and> (0 :: nat) < 2 \<and>
   l_tv_value (1, 1, 2, 1) [[[[1], [1]]]] = (1 + sqrt 2) / 2"
  using l_tv_value_zero_padded[of 1 1 2 1 "[[[[1], [1]]]]"]
  by (simp add: has_shape4_def pixel_tv_def right_neighbour_def lower_neighbour_def upt_rec)

text \<open>
  Claim C8 as stated fails: \<open>L_tv\<close> is not determined by the differences between
  neighbouring pixels. The images of one row, two columns and one channel with both
  entries 1, and with both entries 0, have the same horizontal and the same vertical
  differences, and different values of \<open>L_tv\<close>.
\<close>

theorem l_tv_value_not_by_differences:
  "horizontal_differences [[[[1], [1]]]] = horizontal_differences [[[[0], [0]]]] \<and>
   vertical_differences [[[[1], [1]]]] = vertical_differences [[[[0], [0]]]] \<and>
   l_tv_value (1, 1, 2, 1) [[[[1], [1]]]] \<noteq> l_tv_value (1, 1, 2, 1) [[[[0], [0]]]]"
proof -
  have "l_tv_value (1, 1, 2, 1) [[[[1], [1]]]] = (1 + sqrt 2) / 2"
    by (simp add: l_tv_value_def tv_terms_def left_shift_def up_shift_def zeros4_def
        concat_axis1_def concat_axis2_def unary4_def binary4_def reduce_mean4_def square_def
        Let_def numeral_2_eq_2)
  moreover have "l_tv_value (1, 1, 2, 1) [[[[0], [0]]]] = 0"
    by (simp add: l_tv_value_def tv_terms_def left_shift_def up_shift_def zeros4_def
        concat_axis1_def concat_axis2_def unary4_def binary4_def reduce_mean4_def square_def
        Let_def numeral_2_eq_2)
  moreover have "(1 + sqrt 2) / 2 \<noteq> (0 :: real)"
  proof -
    have "0 < 1 + sqrt (2 :: real)" by (simp add: add_pos_nonneg)
    then show ?thesis by simp
  qed
  ultimately show ?thesis
    by (simp add: horizontal_differences_def vertical_differences_def)
qed

end
